theory Spec2Isabelle
  imports Complex_Main
begin

section \<open>The workflow engine of monai/engines/workflow.py\<close>

text \<open>
  The class \<open>Workflow\<close> builds an Ignite engine, fills \<open>engine.state\<close> with the data shared
  by every trainer, validator and evaluator, attaches metrics and handlers, and registers the
  callback \<open>post_epoch_process\<close> that keeps track of the best value of the key metric.
  The embedding below follows the source statement by statement. Python exceptions are values
  of \<open>error\<close>; text written with \<open>print\<close> is appended to an explicit list of output lines.
\<close>

subsection \<open>Errors, events and Python argument values\<close>

datatype error =
    AssertionError string
  | IndexError string
  | KeyError string
  | TypeError string
  | Raised string

datatype Events =
    STARTED
  | EPOCH_STARTED
  | ITERATION_STARTED
  | ITERATION_COMPLETED
  | EPOCH_COMPLETED
  | COMPLETED
  | EXCEPTION_RAISED

text \<open>
  The constructor receives untyped Python objects and tests them with \<open>isinstance\<close> and
  \<open>len\<close>. \<open>py_value\<close> are the scalars offered as \<open>max_epochs\<close> (a \<open>bool\<close> is an instance of
  \<open>int\<close> in Python); \<open>py_device\<close> and \<open>py_loader\<close> say whether the object is a
  \<open>torch.device\<close>, respectively a \<open>torch.utils.data.DataLoader\<close> (given by the batches it
  yields, its \<open>len\<close> being their number); \<open>py_container\<close> are the objects offered as
  \<open>key_metric\<close>, \<open>additional_metrics\<close> and \<open>handlers\<close>: a dict in insertion order, a list,
  a tuple, or an object without \<open>__len__\<close>. Python's \<open>None\<close> is \<open>None\<close> of an option type.
\<close>

datatype py_value = PyNone | PyBool bool | PyInt int | PyStr string

datatype py_device = TorchDevice string | NotATorchDevice

datatype 'b py_loader = DataLoader "'b list" | NotADataLoader

datatype 'a py_container =
    PyDict "(string \<times> 'a) list"
  | PyList "'a list"
  | PyTuple "'a list"
  | PyUnsized

fun isinstance_int :: "py_value \<Rightarrow> bool" where
  "isinstance_int (PyInt n) = True"
| "isinstance_int (PyBool b) = True"
| "isinstance_int PyNone = False"
| "isinstance_int (PyStr s) = False"

fun int_of :: "py_value \<Rightarrow> int" where
  "int_of (PyInt n) = n"
| "int_of (PyBool b) = (if b then 1 else 0)"
| "int_of PyNone = 0"
| "int_of (PyStr s) = 0"

fun py_len :: "'a py_container \<Rightarrow> error + nat" where
  "py_len (PyDict d) = Inr (length d)"
| "py_len (PyList xs) = Inr (length xs)"
| "py_len (PyTuple xs) = Inr (length xs)"
| "py_len PyUnsized = Inl (TypeError ''object has no len()'')"

text \<open>
  A dict keeps its keys in insertion order: \<open>d[k] = v\<close> replaces the value of an existing key
  in place and appends a new key; \<open>d.update(other)\<close> does so for every item of \<open>other\<close>.
\<close>

fun dict_setitem :: "(string \<times> 'a) list \<Rightarrow> string \<Rightarrow> 'a \<Rightarrow> (string \<times> 'a) list" where
  "dict_setitem [] k v = [(k, v)]"
| "dict_setitem ((k', v') # d) k v =
     (if k' = k then (k', v) # d else (k', v') # dict_setitem d k v)"

definition dict_update :: "(string \<times> 'a) list \<Rightarrow> (string \<times> 'a) list \<Rightarrow> (string \<times> 'a) list" where
  "dict_update d other = foldl (\<lambda>acc (k, v). dict_setitem acc k v) d other"

subsection \<open>The shared state, the engine and its callbacks\<close>

text \<open>
  \<open>State\<close> has the fields given to \<open>State(...)\<close> in \<open>__init__\<close>. Metric values are modelled as
  reals (the order of finite floats). A callback receives the engine and works on what is
  reachable from it: the state, the objects outside the engine (\<open>ext\<close>: the accumulators of the
  metrics, whatever the handlers own) and the output stream.
\<close>

record ('b, 'o) State =
  seed :: int
  iteration :: int
  epoch :: int
  max_epochs :: int
  epoch_length :: int
  output' :: "'o option"
  batch :: "'b option"
  metrics :: "string \<rightharpoonup> real"
  dataloader :: "'b list option"
  device :: string
  amp :: bool
  key_metric_name :: "string option"
  best_metric :: real
  best_metric_epoch :: int

datatype printed = AmpNotice | NewBest string real | Line string

record ('b, 'o, 'x) World =
  rs :: "('b, 'o) State"
  ext :: 'x
  stdout :: "printed list"

type_synonym ('b, 'o, 'x) callback = "('b, 'o, 'x) World \<Rightarrow> error + ('b, 'o, 'x) World"

record ('b, 'o, 'x) Engine =
  state :: "('b, 'o) State"
  event_handlers :: "(Events \<times> ('b, 'o, 'x) callback) list"

text \<open>
  Modelled from the spec: \<open>Engine.add_event_handler\<close> (and the decorator \<open>Engine.on\<close>) of
  Ignite, absent from the sources. Section 4.1: \<open>register(event_kind, callback)\<close> appends the
  callback to the ordered list for that kind, without de-duplication.
\<close>

definition add_event_handler ::
  "Events \<Rightarrow> ('b, 'o, 'x) callback \<Rightarrow> ('b, 'o, 'x) Engine \<Rightarrow> ('b, 'o, 'x) Engine" where
  "add_event_handler ev cb e = e\<lparr>event_handlers := event_handlers e @ [(ev, cb)]\<rparr>"

text \<open>
  Modelled from the spec: the metric objects and \<open>Metric.attach\<close> of Ignite, absent from the
  sources. Section 4.2: a metric exposes \<open>update(output)\<close>, called once per completed iteration
  and registered on \<open>ITERATION_COMPLETED\<close>, and \<open>compute()\<close>, called once per completed epoch,
  whose value is stored into \<open>metrics[name]\<close>, registered on \<open>EPOCH_COMPLETED\<close>. Both work on
  the metric's own accumulator, which lives in \<open>ext\<close>, and both may raise.
\<close>

record ('o, 'x) Metric =
  update :: "'o option \<Rightarrow> 'x \<Rightarrow> error + 'x"
  compute :: "'x \<Rightarrow> error + real"

text \<open>Modelled from the spec: the callback a metric registers on \<open>ITERATION_COMPLETED\<close>, which
  feeds \<open>update\<close> the output of the iteration.\<close>

definition iteration_completed :: "('o, 'x) Metric \<Rightarrow> ('b, 'o, 'x) callback" where
  "iteration_completed m w =
     (case update m (output' (rs w)) (ext w) of
        Inl e \<Rightarrow> Inl e
      | Inr x \<Rightarrow> Inr (w\<lparr>ext := x\<rparr>))"

text \<open>Modelled from the spec: the callback a metric registers on \<open>EPOCH_COMPLETED\<close>, which
  stores the value of \<open>compute\<close> into \<open>metrics[name]\<close>.\<close>

definition completed :: "('o, 'x) Metric \<Rightarrow> string \<Rightarrow> ('b, 'o, 'x) callback" where
  "completed m name w =
     (case compute m (ext w) of
        Inl e \<Rightarrow> Inl e
      | Inr v \<Rightarrow> Inr (w\<lparr>rs := (rs w)\<lparr>metrics := (metrics (rs w))(name \<mapsto> v)\<rparr>\<rparr>))"

text \<open>Modelled from the spec: \<open>Metric.attach(engine, name)\<close> registers the two callbacks.\<close>

definition Metric_attach ::
  "('o, 'x) Metric \<Rightarrow> ('b, 'o, 'x) Engine \<Rightarrow> string \<Rightarrow> ('b, 'o, 'x) Engine" where
  "Metric_attach m e name =
     add_event_handler EPOCH_COMPLETED (completed m name)
       (add_event_handler ITERATION_COMPLETED (iteration_completed m) e)"

text \<open>
  Modelled from the spec: the handlers, absent from the sources. Section 4.4: a handler exposes
  \<open>attach(engine)\<close>, which performs the \<open>register\<close> calls it needs; a handler is given by
  these calls, in the order it makes them.
\<close>

type_synonym ('b, 'o, 'x) Handler = "(Events \<times> ('b, 'o, 'x) callback) list"

text \<open>Modelled from the spec: \<open>handler.attach(engine)\<close> makes the handler's \<open>register\<close> calls in order.\<close>

definition Handler_attach ::
  "('b, 'o, 'x) Handler \<Rightarrow> ('b, 'o, 'x) Engine \<Rightarrow> ('b, 'o, 'x) Engine" where
  "Handler_attach h e = foldl (\<lambda>acc (ev, cb). add_event_handler ev cb acc) e h"

subsection \<open>The callback post\_epoch\_process (lines 90 to 97)\<close>

text \<open>
  \<open>engine.state.metrics[name]\<close> raises \<open>KeyError\<close> when the name is absent; the comparison is
  Python's \<open>>\<close>; the new best value is printed before the two fields are assigned.
\<close>

definition post_epoch_process :: "('b, 'o, 'x) callback" where
  "post_epoch_process w =
     (case key_metric_name (rs w) of
        None \<Rightarrow> Inr w
      | Some name \<Rightarrow>
          (case metrics (rs w) name of
             None \<Rightarrow> Inl (KeyError name)
           | Some current_val_metric \<Rightarrow>
               if current_val_metric > best_metric (rs w)
               then Inr (w\<lparr>stdout := stdout w @ [NewBest name current_val_metric],
                          rs := (rs w)\<lparr>best_metric := current_val_metric,
                                       best_metric_epoch := epoch (rs w)\<rparr>\<rparr>)
               else Inr w))"

subsection \<open>The constructor (lines 40 to 102)\<close>

record ('b, 'o, 'x, 'p) Workflow =
  engine :: "('b, 'o, 'x) Engine"
  data_loader :: "'b list"
  prepare_batch :: 'p

definition amp_notice :: "bool \<Rightarrow> printed list" where
  "amp_notice a = (if a then [AmpNotice] else [])"

definition new_state :: "int \<Rightarrow> string \<Rightarrow> bool \<Rightarrow> ('b, 'o) State" where
  "new_state n dev a =
     \<lparr>seed = 0, iteration = 0, epoch = 0, max_epochs = n, epoch_length = - 1,
      output' = None, batch = None, metrics = Map.empty, dataloader = None,
      device = dev, amp = a, key_metric_name = None,
      best_metric = - 1, best_metric_epoch = - 1\<rparr>"

text \<open>Lines 84 to 86: the working metric set after \<open>metrics.update(additional_metrics)\<close>.\<close>

definition merge_additional ::
  "(string \<times> 'm) list \<Rightarrow> 'm py_container option \<Rightarrow> error + (string \<times> 'm) list" where
  "merge_additional metrics_dict additional_metrics =
     (case additional_metrics of
        None \<Rightarrow> Inr metrics_dict
      | Some am \<Rightarrow>
          (case py_len am of
             Inl e \<Rightarrow> Inl e
           | Inr n \<Rightarrow>
               if n > 0 then
                 (case am of
                    PyDict d \<Rightarrow> Inr (dict_update metrics_dict d)
                  | _ \<Rightarrow> Inl (AssertionError ''additional_metrics must be a dict object.''))
               else Inr metrics_dict))"

text \<open>Lines 87 and 88: \<open>for name, metric in metrics.items(): metric.attach(self.engine, name)\<close>.\<close>

definition attach_metrics ::
  "('b, 'o, 'x) Engine \<Rightarrow> (string \<times> ('o, 'x) Metric) list \<Rightarrow> ('b, 'o, 'x) Engine" where
  "attach_metrics e ms = foldl (\<lambda>acc (name, metric). Metric_attach metric acc name) e ms"

text \<open>Lines 79 to 97: the block guarded by \<open>key_metric is not None\<close>.\<close>

definition setup_metrics ::
  "('b, 'o, 'x) Engine \<Rightarrow> ('o, 'x) Metric py_container option \<Rightarrow>
   ('o, 'x) Metric py_container option \<Rightarrow> error + ('b, 'o, 'x) Engine" where
  "setup_metrics e key_metric additional_metrics =
     (case key_metric of
        None \<Rightarrow> Inr e
      | Some km \<Rightarrow>
          (case km of
             PyDict d \<Rightarrow>
               (case d of
                  [] \<Rightarrow> Inl (IndexError ''list index out of range'')
                | (name, _) # _ \<Rightarrow>
                    (case merge_additional d additional_metrics of
                       Inl err \<Rightarrow> Inl err
                     | Inr ms \<Rightarrow>
                         Inr (add_event_handler EPOCH_COMPLETED post_epoch_process
                                (attach_metrics
                                   (e\<lparr>state := (state e)\<lparr>key_metric_name := Some name\<rparr>\<rparr>) ms))))
           | _ \<Rightarrow> Inl (AssertionError ''key_metric must be a dict object.'')))"

text \<open>Lines 99 to 102: the handlers are attached in the order of the list or tuple.\<close>

definition attach_handlers ::
  "('b, 'o, 'x) Engine \<Rightarrow> ('b, 'o, 'x) Handler py_container option \<Rightarrow>
   error + ('b, 'o, 'x) Engine" where
  "attach_handlers e handlers =
     (case handlers of
        None \<Rightarrow> Inr e
      | Some hs \<Rightarrow>
          (case py_len hs of
             Inl err \<Rightarrow> Inl err
           | Inr n \<Rightarrow>
               if n > 0 then
                 (case hs of
                    PyList l \<Rightarrow> Inr (foldl (\<lambda>acc handler. Handler_attach handler acc) e l)
                  | PyTuple l \<Rightarrow> Inr (foldl (\<lambda>acc handler. Handler_attach handler acc) e l)
                  | _ \<Rightarrow> Inl (AssertionError ''handlers must be a chain.''))
               else Inr e))"

text \<open>
  The three assertions of lines 54 to 56, then the engine and its state, the metrics and the
  handlers. The result is the construction error or the workflow.
\<close>

definition construct_workflow ::
  "py_device \<Rightarrow> py_value \<Rightarrow> bool \<Rightarrow> 'b py_loader \<Rightarrow> 'p \<Rightarrow>
   ('o, 'x) Metric py_container option \<Rightarrow> ('o, 'x) Metric py_container option \<Rightarrow>
   ('b, 'o, 'x) Handler py_container option \<Rightarrow> error + ('b, 'o, 'x, 'p) Workflow" where
  "construct_workflow dev me a dl pb key_metric additional_metrics handlers =
     (case dev of
        NotATorchDevice \<Rightarrow> Inl (AssertionError ''must provide PyTorch device information.'')
      | TorchDevice d \<Rightarrow>
          if \<not> isinstance_int me then Inl (AssertionError ''must set max epoch number.'')
          else
            (case dl of
               NotADataLoader \<Rightarrow> Inl (AssertionError ''data_loader must be PyTorch DataLoader.'')
             | DataLoader batches \<Rightarrow>
                 (case setup_metrics \<lparr>state = new_state (int_of me) d a, event_handlers = []\<rparr>
                         key_metric additional_metrics of
                    Inl err \<Rightarrow> Inl err
                  | Inr e1 \<Rightarrow>
                      (case attach_handlers e1 handlers of
                         Inl err \<Rightarrow> Inl err
                       | Inr e2 \<Rightarrow>
                           Inr \<lparr>engine = e2, data_loader = batches, prepare_batch = pb\<rparr>))))"

text \<open>
  \<open>Workflow.__init__\<close>: the notice of lines 52 and 53 is printed before anything is checked,
  so it is part of the outcome whether or not the construction succeeds.
\<close>

definition Workflow_init ::
  "py_device \<Rightarrow> py_value \<Rightarrow> bool \<Rightarrow> 'b py_loader \<Rightarrow> 'p \<Rightarrow>
   ('o, 'x) Metric py_container option \<Rightarrow> ('o, 'x) Metric py_container option \<Rightarrow>
   ('b, 'o, 'x) Handler py_container option \<Rightarrow>
   printed list \<times> (error + ('b, 'o, 'x, 'p) Workflow)" where
  "Workflow_init dev me a dl pb key_metric additional_metrics handlers =
     (amp_notice a, construct_workflow dev me a dl pb key_metric additional_metrics handlers)"

subsection \<open>Firing events and running the engine\<close>

text \<open>
  Modelled from the spec: the dispatch of events and \<open>Engine.run\<close> of Ignite, absent from the
  sources. Section 4.1: \<open>fire\<close> invokes every callback registered for the event kind,
  synchronously and in registration order, up to the first failure. Section 4.5, steps 3 to 7:
  an unset \<open>epoch_length\<close> (\<open>-1\<close>) is resolved to the declared length; \<open>STARTED\<close> fires once;
  for each epoch in \<open>1..max_epochs\<close>, \<open>EPOCH_STARTED\<close> fires, then for each batch, up to
  \<open>epoch_length\<close> batches, \<open>ITERATION_STARTED\<close> fires, the iteration operation runs and its
  result is stored into \<open>output\<close>, \<open>ITERATION_COMPLETED\<close> fires, and after the batches
  \<open>EPOCH_COMPLETED\<close> fires; after all epochs \<open>COMPLETED\<close> fires; on a failure
  \<open>EXCEPTION_RAISED\<close> fires and the failure propagates. The iteration operation is the
  abstract method \<open>_iteration\<close>, a parameter here; by the spec it counts \<open>iteration\<close> itself.
  A failing callback is taken to leave the world as it found it.

  Beside its result, a run returns the trace of its firings: each event with the state it
  fired on. The trace is not visible to the callbacks.
\<close>

type_synonym ('b, 'o) trace = "(Events \<times> ('b, 'o) State) list"

type_synonym ('b, 'o, 'x) outcome =
  "('b, 'o) trace \<times> ((error \<times> ('b, 'o, 'x) World) + ('b, 'o, 'x) World)"

type_synonym ('b, 'o, 'x) iteration_op =
  "'b \<Rightarrow> ('b, 'o, 'x) World \<Rightarrow> error + ('o \<times> ('b, 'o, 'x) World)"

text \<open>Modelled from the spec: the callbacks of one firing run in order, up to the first failure.\<close>

fun fire_callbacks ::
  "('b, 'o, 'x) callback list \<Rightarrow> ('b, 'o, 'x) World \<Rightarrow>
   (error \<times> ('b, 'o, 'x) World) + ('b, 'o, 'x) World" where
  "fire_callbacks [] w = Inr w"
| "fire_callbacks (cb # cbs) w =
     (case cb w of Inl err \<Rightarrow> Inl (err, w) | Inr w' \<Rightarrow> fire_callbacks cbs w')"

text \<open>Modelled from the spec: the callbacks registered for an event kind, in registration order.\<close>

definition handlers_of :: "Events \<Rightarrow> ('b, 'o, 'x) Engine \<Rightarrow> ('b, 'o, 'x) callback list" where
  "handlers_of ev e = map snd (filter (\<lambda>p. fst p = ev) (event_handlers e))"

text \<open>Modelled from the spec: \<open>fire(event_kind, engine)\<close>, with the trace entry of the firing.\<close>

definition fire ::
  "('b, 'o, 'x) Engine \<Rightarrow> Events \<Rightarrow> ('b, 'o, 'x) World \<Rightarrow> ('b, 'o, 'x) outcome" where
  "fire e ev w = ([(ev, rs w)], fire_callbacks (handlers_of ev e) w)"

text \<open>Modelled from the spec: sequencing of two steps of the run; a failure ends the sequence.\<close>

definition and_then ::
  "('b, 'o, 'x) outcome \<Rightarrow> (('b, 'o, 'x) World \<Rightarrow> ('b, 'o, 'x) outcome) \<Rightarrow>
   ('b, 'o, 'x) outcome" where
  "and_then r f =
     (case snd r of
        Inl failure \<Rightarrow> r
      | Inr w \<Rightarrow> (fst r @ fst (f w), snd (f w)))"

text \<open>Modelled from the spec: the iteration operation is invoked on the batch and its result is
  stored into \<open>output\<close>.\<close>

definition process_batch ::
  "('b, 'o, 'x) iteration_op \<Rightarrow> 'b \<Rightarrow> ('b, 'o, 'x) World \<Rightarrow> ('b, 'o, 'x) outcome" where
  "process_batch it b w =
     (case it b w of
        Inl err \<Rightarrow> ([], Inl (err, w))
      | Inr (out, w') \<Rightarrow> ([], Inr (w'\<lparr>rs := (rs w')\<lparr>output' := Some out\<rparr>\<rparr>)))"

text \<open>Modelled from the spec: the batches of one epoch, each between \<open>ITERATION_STARTED\<close> and
  \<open>ITERATION_COMPLETED\<close>.\<close>

primrec run_iterations ::
  "'b list \<Rightarrow> ('b, 'o, 'x) Engine \<Rightarrow> ('b, 'o, 'x) iteration_op \<Rightarrow> ('b, 'o, 'x) World \<Rightarrow>
   ('b, 'o, 'x) outcome" where
  "run_iterations [] e it w = ([], Inr w)"
| "run_iterations (b # bs) e it w =
     and_then
       (and_then
          (and_then (fire e ITERATION_STARTED (w\<lparr>rs := (rs w)\<lparr>batch := Some b\<rparr>\<rparr>))
             (process_batch it b))
          (fire e ITERATION_COMPLETED))
       (run_iterations bs e it)"

text \<open>Modelled from the spec: one epoch, over up to \<open>epoch_length\<close> batches of the data source.\<close>

definition run_epoch ::
  "('b, 'o, 'x) Engine \<Rightarrow> ('b, 'o, 'x) iteration_op \<Rightarrow> 'b list \<Rightarrow> int \<Rightarrow>
   ('b, 'o, 'x) World \<Rightarrow> ('b, 'o, 'x) outcome" where
  "run_epoch e it data ep w =
     and_then
       (and_then (fire e EPOCH_STARTED (w\<lparr>rs := (rs w)\<lparr>epoch := ep\<rparr>\<rparr>))
          (\<lambda>w1. run_iterations (take (nat (epoch_length (rs w1))) data) e it w1))
       (fire e EPOCH_COMPLETED)"

text \<open>Modelled from the spec: the epochs of a run, numbered from the given index.\<close>

primrec run_epochs ::
  "nat \<Rightarrow> int \<Rightarrow> ('b, 'o, 'x) Engine \<Rightarrow> ('b, 'o, 'x) iteration_op \<Rightarrow> 'b list \<Rightarrow>
   ('b, 'o, 'x) World \<Rightarrow> ('b, 'o, 'x) outcome" where
  "run_epochs 0 ep e it data w = ([], Inr w)"
| "run_epochs (Suc n) ep e it data w =
     and_then (run_epoch e it data ep w) (run_epochs n (ep + 1) e it data)"

text \<open>Modelled from the spec: step 3, an unset \<open>epoch_length\<close> becomes the declared length.\<close>

definition resolve_epoch_length :: "int \<Rightarrow> ('b, 'o, 'x) World \<Rightarrow> ('b, 'o, 'x) World" where
  "resolve_epoch_length declared w =
     (if epoch_length (rs w) = - 1 then w\<lparr>rs := (rs w)\<lparr>epoch_length := declared\<rparr>\<rparr> else w)"

text \<open>Modelled from the spec: step 7, \<open>EXCEPTION_RAISED\<close> fires on the world of the failure, which
  then propagates (a failure of that firing propagates in its place).\<close>

definition on_failure ::
  "('b, 'o, 'x) Engine \<Rightarrow> ('b, 'o, 'x) outcome \<Rightarrow> ('b, 'o, 'x) outcome" where
  "on_failure e r =
     (case snd r of
        Inr w \<Rightarrow> r
      | Inl (err, w) \<Rightarrow>
          (case fire e EXCEPTION_RAISED w of
             (t, Inl failure) \<Rightarrow> (fst r @ t, Inl failure)
           | (t, Inr w') \<Rightarrow> (fst r @ t, Inl (err, w'))))"

text \<open>Modelled from the spec: \<open>Engine.run(data, epoch_length)\<close>, steps 3 to 7.\<close>

definition Engine_run ::
  "('b, 'o, 'x) Engine \<Rightarrow> ('b, 'o, 'x) iteration_op \<Rightarrow> 'b list \<Rightarrow> int \<Rightarrow>
   ('b, 'o, 'x) World \<Rightarrow> ('b, 'o, 'x) outcome" where
  "Engine_run e it data declared w =
     on_failure e
       (and_then
          (and_then (fire e STARTED (resolve_epoch_length declared w))
             (\<lambda>w1. run_epochs (nat (max_epochs (rs w1))) 1 e it data w1))
          (fire e COMPLETED))"

subsection \<open>Workflow.\_run (lines 104 to 109)\<close>

text \<open>
  \<open>self.engine.state.iteration = 0\<close>, then
  \<open>self.engine.run(data=self.data_loader, epoch_length=len(self.data_loader))\<close>. The run
  starts in the world given by the engine's state, the objects outside the engine and the
  output written so far.
\<close>

definition Workflow_run ::
  "('b, 'o, 'x) iteration_op \<Rightarrow> ('b, 'o, 'x, 'p) Workflow \<Rightarrow> 'x \<Rightarrow> printed list \<Rightarrow>
   ('b, 'o, 'x) outcome" where
  "Workflow_run it wk x out =
     Engine_run (engine wk) it (data_loader wk) (int (length (data_loader wk)))
       \<lparr>rs = (state (engine wk))\<lparr>iteration := 0\<rparr>, ext = x, stdout = out\<rparr>"

subsection \<open>What the constructor registers\<close>

text \<open>
  The registrations made by attaching a working metric set, and the handlers a container
  yields when the constructor iterates over it; both are used to state what ends up in
  \<open>event_handlers\<close>.
\<close>

definition metric_registrations ::
  "(string \<times> ('o, 'x) Metric) list \<Rightarrow> (Events \<times> ('b, 'o, 'x) callback) list" where
  "metric_registrations ms =
     concat (map (\<lambda>(name, m). [(ITERATION_COMPLETED, iteration_completed m),
                                 (EPOCH_COMPLETED, completed m name)]) ms)"

fun handler_list :: "'h py_container option \<Rightarrow> 'h list" where
  "handler_list (Some (PyList l)) = l"
| "handler_list (Some (PyTuple l)) = l"
| "handler_list (Some (PyDict d)) = []"
| "handler_list (Some PyUnsized) = []"
| "handler_list None = []"

subsection \<open>Replacing the stored flag amp\<close>

text \<open>
  To compare two workflows that differ in \<open>amp\<close> only: the same world, engine, workflow or
  outcome of a run with the stored flag replaced, and the callbacks and iteration operations
  that do not look at the flag (they commute with replacing it).
\<close>

definition with_amp :: "bool \<Rightarrow> ('b, 'o, 'x) World \<Rightarrow> ('b, 'o, 'x) World" where
  "with_amp b w = w\<lparr>rs := (rs w)\<lparr>amp := b\<rparr>\<rparr>"

definition workflow_with_amp ::
  "bool \<Rightarrow> ('b, 'o, 'x, 'p) Workflow \<Rightarrow> ('b, 'o, 'x, 'p) Workflow" where
  "workflow_with_amp b wk = wk\<lparr>engine := (engine wk)\<lparr>state := (state (engine wk))\<lparr>amp := b\<rparr>\<rparr>\<rparr>"

definition outcome_with_amp :: "bool \<Rightarrow> ('b, 'o, 'x) outcome \<Rightarrow> ('b, 'o, 'x) outcome" where
  "outcome_with_amp b r =
     (map (\<lambda>(ev, s). (ev, s\<lparr>amp := b\<rparr>)) (fst r),
      map_sum (map_prod id (with_amp b)) (with_amp b) (snd r))"

definition amp_blind :: "('b, 'o, 'x) callback \<Rightarrow> bool" where
  "amp_blind cb = (\<forall>b w. cb (with_amp b w) = map_sum id (with_amp b) (cb w))"

definition amp_blind_op :: "('b, 'o, 'x) iteration_op \<Rightarrow> bool" where
  "amp_blind_op it =
     (\<forall>b x w. it x (with_amp b w) = map_sum id (map_prod id (with_amp b)) (it x w))"

definition engine_with_amp :: "bool \<Rightarrow> ('b, 'o, 'x) Engine \<Rightarrow> ('b, 'o, 'x) Engine" where
  "engine_with_amp b e = e\<lparr>state := (state e)\<lparr>amp := b\<rparr>\<rparr>"

definition all_blind :: "('b, 'o, 'x) Engine \<Rightarrow> bool" where
  "all_blind e = (\<forall>p \<in> set (event_handlers e). amp_blind (snd p))"

subsection \<open>Example data\<close>

text \<open>
  A metric with a constant value that counts its updates, a handler that writes one line
  on one event, and an iteration operation that returns its batch and counts \<open>iteration\<close>,
  for the concrete inputs below.
\<close>

definition example_metric :: "real \<Rightarrow> (nat, nat) Metric" where
  "example_metric v = \<lparr>update = (\<lambda>out x. Inr (x + 1)), compute = (\<lambda>x. Inr v)\<rparr>"

definition example_handler :: "Events \<Rightarrow> string \<Rightarrow> (nat, nat, nat) Handler" where
  "example_handler ev line = [(ev, \<lambda>w. Inr (w\<lparr>stdout := stdout w @ [Line line]\<rparr>))]"

definition example_iteration :: "(nat, nat, nat) iteration_op" where
  "example_iteration b w = Inr (b, w\<lparr>rs := (rs w)\<lparr>iteration := iteration (rs w) + 1\<rparr>\<rparr>)"

section \<open>Properties\<close>

subsection \<open>Auxiliary facts about registration and construction\<close>

lemma add_event_handler_simps [simp]:
  "event_handlers (add_event_handler ev cb e) = event_handlers e @ [(ev, cb)]"
  "state (add_event_handler ev cb e) = state e"
  by (simp_all add: add_event_handler_def)

lemma Handler_attach_simps [simp]:
  "event_handlers (Handler_attach h e) = event_handlers e @ h"
  "state (Handler_attach h e) = state e"
  unfolding Handler_attach_def
  by (induction h arbitrary: e) (simp_all add: case_prod_beta)

lemma attach_all_handlers [simp]:
  "event_handlers (foldl (\<lambda>acc handler. Handler_attach handler acc) e l) = event_handlers e @ concat l"
  "state (foldl (\<lambda>acc handler. Handler_attach handler acc) e l) = state e"
  by (induction l arbitrary: e) simp_all

lemma Metric_attach_simps [simp]:
  "event_handlers (Metric_attach m e name) =
     event_handlers e @ [(ITERATION_COMPLETED, iteration_completed m), (EPOCH_COMPLETED, completed m name)]"
  "state (Metric_attach m e name) = state e"
  by (simp_all add: Metric_attach_def)

lemma attach_metrics_simps [simp]:
  "event_handlers (attach_metrics e ms) = event_handlers e @ metric_registrations ms"
  "state (attach_metrics e ms) = state e"
  unfolding attach_metrics_def metric_registrations_def
  by (induction ms arbitrary: e) (simp_all add: case_prod_beta)

lemma handler_list_empty:
  "py_len c = Inr 0 \<Longrightarrow> handler_list (Some c) = []"
  by (cases c) simp_all

lemma attach_handlers_cases:
  "attach_handlers e hs = Inr e' \<Longrightarrow>
     event_handlers e' = event_handlers e @ concat (handler_list hs) \<and> state e' = state e"
  by (auto simp: attach_handlers_def handler_list_empty
        split: option.splits sum.splits if_splits py_container.splits)

lemma attach_handlers_engine_free:
  "isl (attach_handlers e hs) = isl (attach_handlers e' hs)"
  by (auto simp: attach_handlers_def split: option.splits sum.splits if_splits py_container.splits)

lemma merge_additional_dict_free:
  "isl (merge_additional d am) = isl (merge_additional d' am)"
  by (auto simp: merge_additional_def split: option.splits sum.splits if_splits py_container.splits)

lemma setup_metrics_None [simp]: "setup_metrics e None am = Inr e"
  by (simp add: setup_metrics_def)

lemma setup_metrics_Inr:
  "setup_metrics e (Some km) am = Inr e' \<Longrightarrow>
     \<exists>d ms. km = PyDict d \<and> d \<noteq> [] \<and> merge_additional d am = Inr ms \<and>
       state e' = (state e)\<lparr>key_metric_name := Some (fst (hd d))\<rparr> \<and>
       event_handlers e' = event_handlers e @ metric_registrations ms @ [(EPOCH_COMPLETED, post_epoch_process)]"
  by (auto simp: setup_metrics_def split: py_container.splits list.splits sum.splits)

lemma construct_Inr:
  "construct_workflow dev me a dl pb km am hs = Inr wk \<Longrightarrow>
     \<exists>d bs e1. dev = TorchDevice d \<and> isinstance_int me \<and> dl = DataLoader bs \<and>
       setup_metrics \<lparr>state = new_state (int_of me) d a, event_handlers = []\<rparr> km am = Inr e1 \<and>
       attach_handlers e1 hs = Inr (engine wk) \<and> data_loader wk = bs \<and> prepare_batch wk = pb"
  by (auto simp: construct_workflow_def split: py_device.splits py_loader.splits sum.splits if_splits)

lemma keys_dict_setitem:
  "map fst (dict_setitem d k v) = (if k \<in> set (map fst d) then map fst d else map fst d @ [k])"
  by (induction d) force+

lemma map_of_dict_setitem:
  "map_of (dict_setitem d k v) k' = (if k' = k then Some v else map_of d k')"
  by (induction d) auto

lemma distinct_dict_setitem:
  "distinct (map fst d) \<Longrightarrow> distinct (map fst (dict_setitem d k v))"
  by (simp add: keys_dict_setitem)

lemma distinct_dict_update:
  "distinct (map fst d) \<Longrightarrow> distinct (map fst (dict_update d other))"
  unfolding dict_update_def
  by (induction other arbitrary: d) (auto simp: distinct_dict_setitem)

lemma keys_dict_update:
  "set (map fst d) \<subseteq> set (map fst (dict_update d other))"
  unfolding dict_update_def
proof (induction other arbitrary: d)
  case Nil
  then show ?case by simp
next
  case (Cons p other)
  obtain k v where p: "p = (k, v)" by (cases p)
  have "set (map fst d) \<subseteq> set (map fst (dict_setitem d k v))"
    by (simp only: keys_dict_setitem) auto
  with Cons [of "dict_setitem d k v"] show ?case
    by (auto simp: p)
qed

lemma map_of_dict_update:
  "distinct (map fst other) \<Longrightarrow>
     map_of (dict_update d other) k =
       (case map_of other k of None \<Rightarrow> map_of d k | Some v \<Rightarrow> Some v)"
  unfolding dict_update_def
proof (induction other arbitrary: d)
  case Nil
  then show ?case by simp
next
  case (Cons p other)
  obtain k' v where p: "p = (k', v)" by (cases p)
  from Cons.prems have k: "map_of other k' = None" and dis: "distinct (map fst other)"
    by (auto simp: p map_of_eq_None_iff)
  show ?case
    using Cons.IH [OF dis, of "dict_setitem d k' v"] k
    by (auto simp: p map_of_dict_setitem split: option.splits)
qed

lemma construct_with_key_metric:
  fixes wk0 :: "('b, 'o, 'x, 'p) Workflow"
  assumes "construct_workflow dev me a dl pb (Some (PyDict d)) am0 hs = Inr wk0"
    and "merge_additional d am = Inr ms"
  shows "\<exists>wk. construct_workflow dev me a dl pb (Some (PyDict d)) am hs = Inr wk \<and>
           state (engine wk) = state (engine wk0) \<and>
           event_handlers (engine wk) =
             metric_registrations ms @ [(EPOCH_COMPLETED, post_epoch_process)] @
             concat (handler_list hs)"
proof -
  from assms(1) obtain t bs e1 where
    ok: "dev = TorchDevice t" "isinstance_int me" "dl = DataLoader bs"
    and s1: "setup_metrics \<lparr>state = new_state (int_of me) t a, event_handlers = []\<rparr>
               (Some (PyDict d)) am0 = Inr e1"
    and h1: "attach_handlers e1 hs = Inr (engine wk0)"
    by (auto dest!: construct_Inr)
  let ?e0 = "\<lparr>state = new_state (int_of me) t a, event_handlers = []\<rparr> :: ('b, 'o, 'x) Engine"
  from s1 have d: "d \<noteq> []" and st1: "state e1 = (state ?e0)\<lparr>key_metric_name := Some (fst (hd d))\<rparr>"
    by (auto dest!: setup_metrics_Inr)
  from d assms(2) obtain e2 where s2: "setup_metrics ?e0 (Some (PyDict d)) am = Inr e2"
    by (cases d) (auto simp: setup_metrics_def)
  from h1 have "\<not> isl (attach_handlers e1 hs)" by simp
  then have "\<not> isl (attach_handlers e2 hs)"
    using attach_handlers_engine_free by blast
  then obtain e3 where h2: "attach_handlers e2 hs = Inr e3"
    by (cases "attach_handlers e2 hs") auto
  have "state e3 = state (engine wk0)"
    using attach_handlers_cases [OF h2] attach_handlers_cases [OF h1] setup_metrics_Inr [OF s2] st1
    by auto
  moreover have "event_handlers e3 =
      metric_registrations ms @ [(EPOCH_COMPLETED, post_epoch_process)] @ concat (handler_list hs)"
    using attach_handlers_cases [OF h2] setup_metrics_Inr [OF s2] assms(2) by auto
  ultimately show ?thesis
    using ok s2 h2 by (simp add: construct_workflow_def)
qed

lemma handlers_of_append:
  "event_handlers e = xs @ ys \<Longrightarrow>
     handlers_of ev e = map snd (filter (\<lambda>p. fst p = ev) xs) @ map snd (filter (\<lambda>p. fst p = ev) ys)"
  by (simp add: handlers_of_def)

lemma epoch_completed_of_metrics:
  "map snd (filter (\<lambda>p. fst p = EPOCH_COMPLETED) (metric_registrations ms)) =
     map (\<lambda>(name, m). completed m name) ms"
  by (induction ms) (auto simp: metric_registrations_def)

lemma fire_callbacks_append:
  "fire_callbacks (xs @ ys) w =
     (case fire_callbacks xs w of Inl failure \<Rightarrow> Inl failure | Inr w1 \<Rightarrow> fire_callbacks ys w1)"
  by (induction xs arbitrary: w) (auto split: sum.splits)

lemma completed_effect:
  "completed m name w = Inr w1 \<Longrightarrow>
     ext w1 = ext w \<and> (\<exists>v. compute m (ext w) = Inr v \<and> metrics (rs w1) = (metrics (rs w))(name \<mapsto> v))"
  by (auto simp: completed_def split: sum.splits)

lemma computed_before_read:
  "fire_callbacks (map (\<lambda>(name, m). completed m name) ms) w = Inr w1 \<Longrightarrow>
     ext w1 = ext w \<and>
     (\<forall>k. if k \<in> set (map fst ms)
          then \<exists>m v. (k, m) \<in> set ms \<and> compute m (ext w) = Inr v \<and> metrics (rs w1) k = Some v
          else metrics (rs w1) k = metrics (rs w) k)"
proof (induction ms arbitrary: w)
  case Nil
  then show ?case by simp
next
  case (Cons p ms)
  obtain name m where p: "p = (name, m)" by (cases p)
  from Cons.prems obtain w0 where
    c: "completed m name w = Inr w0"
    and r: "fire_callbacks (map (\<lambda>(name, m). completed m name) ms) w0 = Inr w1"
    by (auto simp: p split: sum.splits)
  from completed_effect [OF c] obtain v where
    e: "ext w0 = ext w" and v: "compute m (ext w) = Inr v"
    and ms: "metrics (rs w0) = (metrics (rs w))(name \<mapsto> v)"
    by blast
  from Cons.IH [OF r] have
    e1: "ext w1 = ext w0"
    and ih: "\<And>k. if k \<in> set (map fst ms)
          then \<exists>m v. (k, m) \<in> set ms \<and> compute m (ext w0) = Inr v \<and> metrics (rs w1) k = Some v
          else metrics (rs w1) k = metrics (rs w0) k"
    by blast+
  show ?case
  proof (intro conjI allI)
    show "ext w1 = ext w" using e e1 by simp
  next
    fix k
    show "if k \<in> set (map fst (p # ms))
          then \<exists>m v. (k, m) \<in> set (p # ms) \<and> compute m (ext w) = Inr v \<and> metrics (rs w1) k = Some v
          else metrics (rs w1) k = metrics (rs w) k"
      using ih [of k] e v ms by (auto simp: p split: if_splits)
  qed
qed

subsection \<open>Tracking the best metric\<close>


text \<open>
  Claim C1. With a key metric configured, the callback run on \<open>EPOCH_COMPLETED\<close> compares the
  value found in \<open>metrics\<close> under the key metric's name with \<open>best_metric\<close>: a strictly greater
  value becomes \<open>best_metric\<close> and the current epoch becomes \<open>best_metric_epoch\<close>; an equal or
  lower value leaves both as they were. The callback does not fail.
\<close>

theorem post_epoch_process_tracks_best:
  assumes "key_metric_name (rs w) = Some name" and "metrics (rs w) name = Some v"
  shows "\<exists>w'. post_epoch_process w = Inr w' \<and>
           (best_metric (rs w) < v \<longrightarrow>
              best_metric (rs w') = v \<and> best_metric_epoch (rs w') = epoch (rs w)) \<and>
           (v \<le> best_metric (rs w) \<longrightarrow>
              best_metric (rs w') = best_metric (rs w) \<and>
              best_metric_epoch (rs w') = best_metric_epoch (rs w))"
  using assms by (simp add: post_epoch_process_def)

theorem post_epoch_process_tracks_best_witness:
  "\<exists>w'. post_epoch_process
          \<lparr>rs = (new_state 5 ''cpu'' False :: (nat, nat) State)
                 \<lparr>epoch := 3, metrics := [''acc'' \<mapsto> 1 / 2], key_metric_name := Some ''acc''\<rparr>,
           ext = (), stdout = []\<rparr> = Inr w' \<and>
        best_metric (rs w') = 1 / 2 \<and> best_metric_epoch (rs w') = 3"
  using post_epoch_process_tracks_best
    [of "\<lparr>rs = (new_state 5 ''cpu'' False :: (nat, nat) State)
                 \<lparr>epoch := 3, metrics := [''acc'' \<mapsto> 1 / 2], key_metric_name := Some ''acc''\<rparr>,
           ext = (), stdout = []\<rparr>" "''acc''" "1 / 2"]
  by (simp add: new_state_def)

subsection \<open>Validation of the constructor's arguments\<close>

text \<open>
  Claim C3, as stated, asks the constructor to reject every \<open>max_epochs\<close> that is not an
  integer greater than or equal to 1. The assertion of line 55 only tests
  \<open>isinstance(max_epochs, int)\<close>: an epoch count of 0 passes it and the workflow is built.
\<close>

theorem max_epochs_zero_accepted:
  "\<not> (1 \<le> (0::int)) \<and>
   snd (Workflow_init (TorchDevice ''cpu'') (PyInt 0) False (DataLoader []) () None None None
          :: printed list \<times> (error + (nat, nat, nat, unit) Workflow)) =
     Inr \<lparr>engine = \<lparr>state = new_state 0 ''cpu'' False, event_handlers = []\<rparr>,
          data_loader = [], prepare_batch = ()\<rparr>"
  by (simp add: Workflow_init_def construct_workflow_def attach_handlers_def)

text \<open>
  Claim C3, amended. A \<open>max_epochs\<close> that is not an instance of \<open>int\<close> makes the constructor
  fail with an assertion error: the one of line 55 when the device is a \<open>torch.device\<close>, the
  one of line 54 otherwise.
\<close>

theorem non_integer_max_epochs_rejected:
  assumes "\<not> isinstance_int me"
  shows "snd (Workflow_init dev me a dl pb km am hs) =
           Inl (case dev of
                  NotATorchDevice \<Rightarrow> AssertionError ''must provide PyTorch device information.''
                | TorchDevice d \<Rightarrow> AssertionError ''must set max epoch number.'')"
  using assms by (simp add: Workflow_init_def construct_workflow_def split: py_device.splits)

theorem non_integer_max_epochs_rejected_witness:
  "snd (Workflow_init (TorchDevice ''cpu'') (PyStr ''10'') False (DataLoader [1, 2]) () None None None
          :: printed list \<times> (error + (nat, nat, nat, unit) Workflow)) =
     Inl (AssertionError ''must set max epoch number.'')"
  using non_integer_max_epochs_rejected
    [of "PyStr ''10''" "TorchDevice ''cpu''" False "DataLoader [1, 2 :: nat]" "()" None None None]
  by simp

text \<open>
  Claim C4. A \<open>key_metric\<close> that is given but is not a non-empty dict makes the constructor
  fail: when the three assertions of lines 54 to 56 pass, an empty dict raises \<open>IndexError\<close> at
  \<open>list(key_metric.keys())[0]\<close> and any other object fails the assertion of line 81.
\<close>

theorem key_metric_not_nonempty_dict_rejected:
  assumes "\<not> (\<exists>d. km = PyDict d \<and> d \<noteq> [])"
  shows "\<exists>err. snd (Workflow_init dev me a dl pb (Some km) am hs) = Inl err \<and>
           ((\<exists>t. dev = TorchDevice t) \<and> isinstance_int me \<and> (\<exists>bs. dl = DataLoader bs) \<longrightarrow>
              err = (if km = PyDict [] then IndexError ''list index out of range''
                     else AssertionError ''key_metric must be a dict object.''))"
  using assms
  by (auto simp: Workflow_init_def construct_workflow_def setup_metrics_def
        split: py_device.splits py_loader.splits py_container.splits list.splits)

theorem key_metric_not_nonempty_dict_rejected_witness:
  "snd (Workflow_init (TorchDevice ''cpu'') (PyInt 2) False (DataLoader [1, 2]) ()
          (Some (PyDict [])) None None
          :: printed list \<times> (error + (nat, nat, nat, unit) Workflow)) =
     Inl (IndexError ''list index out of range'')"
  using key_metric_not_nonempty_dict_rejected
    [of "PyDict []" "TorchDevice ''cpu''" "PyInt 2" False "DataLoader [1, 2 :: nat]" "()" None None]
  by auto

subsection \<open>The key metric and the working metric set\<close>

text \<open>
  Claim C5. With more than one entry in \<open>key_metric\<close>, the first key in the dict's order is
  stored as \<open>key_metric_name\<close>, and the further entries raise no error: whenever the
  construction with the first entry alone succeeds, so does the construction with all of them.
\<close>

theorem first_key_is_key_metric_name:
  fixes d :: "(string \<times> ('o, 'x) Metric) list" and wk1 :: "('b, 'o, 'x, 'p) Workflow"
  assumes "1 < length d"
    and "snd (Workflow_init dev me a dl pb (Some (PyDict [hd d])) am hs) = Inr wk1"
  shows "\<exists>wk. snd (Workflow_init dev me a dl pb (Some (PyDict d)) am hs) = Inr wk \<and>
           key_metric_name (state (engine wk)) = Some (fst (hd d))"
proof -
  from assms(1) obtain k m rest where d: "d = (k, m) # rest"
    by (cases d) auto
  from assms(2) obtain t bs e1 where
    ok: "dev = TorchDevice t" "isinstance_int me" "dl = DataLoader bs"
    and s1: "setup_metrics \<lparr>state = new_state (int_of me) t a, event_handlers = []\<rparr>
               (Some (PyDict [hd d])) am = Inr e1"
    and h1: "attach_handlers e1 hs = Inr (engine wk1)"
    by (auto simp: Workflow_init_def dest!: construct_Inr)
  let ?e0 = "\<lparr>state = new_state (int_of me) t a, event_handlers = []\<rparr> :: ('b, 'o, 'x) Engine"
  from s1 have "\<not> isl (merge_additional [hd d] am)"
    by (auto dest!: setup_metrics_Inr)
  then have "\<not> isl (merge_additional d am)"
    using merge_additional_dict_free by blast
  then obtain ms where ms: "merge_additional d am = Inr ms"
    by (cases "merge_additional d am") auto
  then obtain e2 where s2: "setup_metrics ?e0 (Some (PyDict d)) am = Inr e2"
    by (simp add: setup_metrics_def d)
  from h1 have "\<not> isl (attach_handlers e1 hs)" by simp
  then have "\<not> isl (attach_handlers e2 hs)"
    using attach_handlers_engine_free by blast
  then obtain e3 where h2: "attach_handlers e2 hs = Inr e3"
    by (cases "attach_handlers e2 hs") auto
  have "state e3 = state e2"
    using attach_handlers_cases [OF h2] by simp
  moreover have "key_metric_name (state e2) = Some (fst (hd d))"
    using setup_metrics_Inr [OF s2] by auto
  ultimately show ?thesis
    using ok s2 h2 by (simp add: Workflow_init_def construct_workflow_def)
qed

theorem first_key_is_key_metric_name_witness:
  "\<exists>wk. snd (Workflow_init (TorchDevice ''cpu'') (PyInt 2) False (DataLoader [1, 2]) ()
            (Some (PyDict [(''dice'', example_metric 1), (''loss'', example_metric 2)])) None None
            :: printed list \<times> (error + (nat, nat, nat, unit) Workflow)) = Inr wk \<and>
        key_metric_name (state (engine wk)) = Some ''dice''"
  using first_key_is_key_metric_name
    [of "[(''dice'', example_metric 1), (''loss'', example_metric 2)]"
        "TorchDevice ''cpu''" "PyInt 2" False "DataLoader [1, 2 :: nat]" "()" None None]
  by (simp add: Workflow_init_def construct_workflow_def setup_metrics_def merge_additional_def
        attach_handlers_def)

text \<open>
  Claim C6. When a name occurs in both \<open>key_metric\<close> and \<open>additional_metrics\<close> (two dicts,
  hence with distinct keys), the working metric set attached to the engine holds, under that
  name, the metric of \<open>additional_metrics\<close> and no other; the construction succeeds as it does
  without \<open>additional_metrics\<close> and prints nothing but the notice about \<open>amp\<close>.
\<close>

theorem additional_metric_overwrites_key_metric:
  fixes d :: "(string \<times> ('o, 'x) Metric) list" and wk0 :: "('b, 'o, 'x, 'p) Workflow"
  assumes "distinct (map fst d)" and "distinct (map fst a')"
    and "map_of d name = Some m" and "map_of a' name = Some m'"
    and "snd (Workflow_init dev me a dl pb (Some (PyDict d)) None hs) = Inr wk0"
  shows "\<exists>wk. Workflow_init dev me a dl pb (Some (PyDict d)) (Some (PyDict a')) hs =
                 (amp_notice a, Inr wk) \<and>
           event_handlers (engine wk) =
             metric_registrations (dict_update d a') @ [(EPOCH_COMPLETED, post_epoch_process)] @
             concat (handler_list hs) \<and>
           (\<forall>x. (name, x) \<in> set (dict_update d a') \<longleftrightarrow> x = m')"
proof -
  have m: "merge_additional d (Some (PyDict a')) = Inr (dict_update d a')"
    by (cases a') (simp_all add: merge_additional_def dict_update_def)
  have "distinct (map fst (dict_update d a'))"
    using assms(1) by (rule distinct_dict_update)
  moreover have "map_of (dict_update d a') name = Some m'"
    using assms(2,4) by (simp add: map_of_dict_update)
  ultimately have "\<forall>x. (name, x) \<in> set (dict_update d a') \<longleftrightarrow> x = m'"
    by (metis map_of_eq_Some_iff option.inject)
  moreover from assms(5) have "construct_workflow dev me a dl pb (Some (PyDict d)) None hs = Inr wk0"
    by (simp add: Workflow_init_def)
  ultimately show ?thesis
    using construct_with_key_metric [OF _ m] by (fastforce simp: Workflow_init_def)
qed

theorem additional_metric_overwrites_key_metric_witness:
  "\<exists>wk. Workflow_init (TorchDevice ''cpu'') (PyInt 2) False (DataLoader [1, 2]) ()
            (Some (PyDict [(''dice'', example_metric 1)]))
            (Some (PyDict [(''dice'', example_metric 2), (''loss'', example_metric 3)])) None =
            (amp_notice False, Inr (wk :: (nat, nat, nat, unit) Workflow)) \<and>
        event_handlers (engine wk) =
          metric_registrations [(''dice'', example_metric 2), (''loss'', example_metric 3)] @
          [(EPOCH_COMPLETED, post_epoch_process)] \<and>
        (\<forall>x. (''dice'', x) \<in> set (dict_update [(''dice'', example_metric 1)]
                  [(''dice'', example_metric 2), (''loss'', example_metric 3)]) \<longleftrightarrow>
             x = example_metric 2)"
proof -
  have base: "snd (Workflow_init (TorchDevice ''cpu'') (PyInt 2) False (DataLoader [1, 2]) ()
            (Some (PyDict [(''dice'', example_metric 1)])) None None) =
      Inr (\<lparr>engine = add_event_handler EPOCH_COMPLETED post_epoch_process
                (attach_metrics
                   \<lparr>state = (new_state 2 ''cpu'' False)\<lparr>key_metric_name := Some ''dice''\<rparr>,
                    event_handlers = []\<rparr> [(''dice'', example_metric 1)]),
            data_loader = [1, 2], prepare_batch = ()\<rparr> :: (nat, nat, nat, unit) Workflow)"
    by (simp add: Workflow_init_def construct_workflow_def setup_metrics_def merge_additional_def
          attach_handlers_def)
  have upd: "dict_update [(''dice'', example_metric 1)]
               [(''dice'', example_metric 2), (''loss'', example_metric 3)] =
             [(''dice'', example_metric 2), (''loss'', example_metric 3)]"
    by (simp add: dict_update_def)
  show ?thesis
    using additional_metric_overwrites_key_metric
      [of "[(''dice'', example_metric 1)]"
          "[(''dice'', example_metric 2), (''loss'', example_metric 3)]"
          "''dice''" "example_metric 1" "example_metric 2", OF _ _ _ _ base]
    by (simp add: upd)
qed

subsection \<open>Order of the callbacks\<close>

text \<open>
  Claim C7. With a key metric, the callbacks registered on \<open>EPOCH_COMPLETED\<close> are the
  \<open>compute\<close> callbacks of the working metric set, then \<open>post_epoch_process\<close>, then those of
  the handlers. Firing the event runs them in that order, and when the \<open>compute\<close> callbacks
  have run, \<open>metrics\<close> holds under the key metric's name a value computed in this firing.
\<close>

theorem tracker_runs_after_metric_compute:
  fixes wk :: "('b, 'o, 'x, 'p) Workflow"
  assumes "snd (Workflow_init dev me a dl pb (Some km) am hs) = Inr wk"
  shows "\<exists>d ms cbs. km = PyDict d \<and> merge_additional d am = Inr ms \<and>
           key_metric_name (state (engine wk)) = Some (fst (hd d)) \<and>
           handlers_of EPOCH_COMPLETED (engine wk) =
             map (\<lambda>(name, m). completed m name) ms @ post_epoch_process # cbs \<and>
           (\<forall>w. fire_callbacks (handlers_of EPOCH_COMPLETED (engine wk)) w =
              (case fire_callbacks (map (\<lambda>(name, m). completed m name) ms) w of
                 Inl failure \<Rightarrow> Inl failure
               | Inr w1 \<Rightarrow>
                   (case post_epoch_process w1 of
                      Inl err \<Rightarrow> Inl (err, w1)
                    | Inr w2 \<Rightarrow> fire_callbacks cbs w2))) \<and>
           (\<forall>(w :: ('b, 'o, 'x) World) w1.
              fire_callbacks (map (\<lambda>(name, m). completed m name) ms) w = Inr w1 \<longrightarrow>
              (\<exists>m v. (fst (hd d), m) \<in> set ms \<and> compute m (ext w) = Inr v \<and>
                 metrics (rs w1) (fst (hd d)) = Some v))"
proof -
  from assms obtain t e1 where
    s1: "setup_metrics \<lparr>state = new_state (int_of me) t a, event_handlers = []\<rparr> (Some km) am = Inr e1"
    and h1: "attach_handlers e1 hs = Inr (engine wk)"
    by (auto simp: Workflow_init_def dest!: construct_Inr)
  from setup_metrics_Inr [OF s1] obtain d ms where
    km: "km = PyDict d" and d: "d \<noteq> []" and ms: "merge_additional d am = Inr ms"
    and st: "key_metric_name (state e1) = Some (fst (hd d))"
    and eh: "event_handlers e1 = metric_registrations ms @ [(EPOCH_COMPLETED, post_epoch_process)]"
    by auto
  let ?computes = "map (\<lambda>(name, m). completed m name) ms"
  let ?cbs = "map snd (filter (\<lambda>p. fst p = EPOCH_COMPLETED) (concat (handler_list hs)))"
  have ho: "handlers_of EPOCH_COMPLETED (engine wk) = ?computes @ post_epoch_process # ?cbs"
    using attach_handlers_cases [OF h1] eh
    by (simp add: handlers_of_def epoch_completed_of_metrics)
  have key: "fst (hd d) \<in> set (map fst ms)"
  proof -
    have "fst (hd d) \<in> set (map fst d)" using d by (cases d) auto
    moreover have "set (map fst d) \<subseteq> set (map fst ms)"
      using ms keys_dict_update [of d]
      by (auto simp: merge_additional_def split: option.splits sum.splits if_splits py_container.splits)
    ultimately show ?thesis by blast
  qed
  have fresh: "\<forall>(w :: ('b, 'o, 'x) World) w1. fire_callbacks ?computes w = Inr w1 \<longrightarrow>
              (\<exists>m v. (fst (hd d), m) \<in> set ms \<and> compute m (ext w) = Inr v \<and>
                 metrics (rs w1) (fst (hd d)) = Some v)"
  proof (intro allI impI)
    fix w w1 :: "('b, 'o, 'x) World"
    assume "fire_callbacks ?computes w = Inr w1"
    from computed_before_read [OF this] key
    show "\<exists>m v. (fst (hd d), m) \<in> set ms \<and> compute m (ext w) = Inr v \<and>
                 metrics (rs w1) (fst (hd d)) = Some v"
      by (metis (no_types, lifting))
  qed
  have seq: "\<forall>w. fire_callbacks (handlers_of EPOCH_COMPLETED (engine wk)) w =
              (case fire_callbacks ?computes w of
                 Inl failure \<Rightarrow> Inl failure
               | Inr w1 \<Rightarrow>
                   (case post_epoch_process w1 of
                      Inl err \<Rightarrow> Inl (err, w1)
                    | Inr w2 \<Rightarrow> fire_callbacks ?cbs w2))"
    by (simp add: ho fire_callbacks_append split: sum.splits)
  have "key_metric_name (state (engine wk)) = Some (fst (hd d))"
    using attach_handlers_cases [OF h1] st by simp
  with km ms ho seq fresh show ?thesis by blast
qed

theorem tracker_runs_after_metric_compute_witness:
  "\<exists>d ms cbs. PyDict [(''dice'', example_metric 1)] = PyDict d \<and>
      merge_additional d None = Inr ms \<and>
      handlers_of EPOCH_COMPLETED
        \<lparr>state = (new_state 2 ''cpu'' False :: (nat, nat) State)\<lparr>key_metric_name := Some ''dice''\<rparr>,
         event_handlers =
           [(ITERATION_COMPLETED, iteration_completed (example_metric 1)),
            (EPOCH_COMPLETED, completed (example_metric 1) ''dice''),
            (EPOCH_COMPLETED, post_epoch_process)]\<rparr> =
        map (\<lambda>(name, m). completed m name) ms @ post_epoch_process # cbs"
proof -
  have "snd (Workflow_init (TorchDevice ''cpu'') (PyInt 2) False (DataLoader [1, 2]) ()
            (Some (PyDict [(''dice'', example_metric 1)])) None None) =
      Inr (\<lparr>engine =
             \<lparr>state = (new_state 2 ''cpu'' False)\<lparr>key_metric_name := Some ''dice''\<rparr>,
              event_handlers =
                [(ITERATION_COMPLETED, iteration_completed (example_metric 1)),
                 (EPOCH_COMPLETED, completed (example_metric 1) ''dice''),
                 (EPOCH_COMPLETED, post_epoch_process)]\<rparr>,
            data_loader = [1, 2], prepare_batch = ()\<rparr> :: (nat, nat, nat, unit) Workflow)"
    by (simp add: Workflow_init_def construct_workflow_def setup_metrics_def merge_additional_def
          attach_handlers_def attach_metrics_def Metric_attach_def add_event_handler_def)
  from tracker_runs_after_metric_compute [OF this] show ?thesis
    by auto
qed

text \<open>
  Claim C8. Given a list or tuple of handlers, the constructor attaches each handler in the
  order of the sequence to the engine it has built so far, so the callbacks of an event fire
  in that order after those registered before; an empty sequence gives the same workflow as
  no sequence, and with no sequence the engine is the one left by the metrics block: nothing
  is attached.
\<close>

theorem handlers_attached_in_order:
  fixes wk0 :: "('b, 'o, 'x, 'p) Workflow"
  assumes "snd (Workflow_init dev me a dl pb km am None) = Inr wk0"
    and "hs = PyList l \<or> hs = PyTuple l"
  shows "\<exists>wk. snd (Workflow_init dev me a dl pb km am (Some hs)) = Inr wk \<and>
           engine wk = foldl (\<lambda>acc handler. Handler_attach handler acc) (engine wk0) l \<and>
           event_handlers (engine wk) = event_handlers (engine wk0) @ concat l \<and>
           (\<forall>ev. handlers_of ev (engine wk) =
              handlers_of ev (engine wk0) @
              concat (map (\<lambda>handler. map snd (filter (\<lambda>p. fst p = ev) handler)) l)) \<and>
           (l = [] \<longrightarrow> wk = wk0) \<and>
           (\<exists>t. setup_metrics \<lparr>state = new_state (int_of me) t a, event_handlers = []\<rparr> km am =
                  Inr (engine wk0))"
proof -
  from assms(1) obtain t bs e1 where
    ok: "dev = TorchDevice t" "isinstance_int me" "dl = DataLoader bs"
    and s1: "setup_metrics \<lparr>state = new_state (int_of me) t a, event_handlers = []\<rparr> km am = Inr e1"
    and h1: "attach_handlers e1 None = Inr (engine wk0)"
    and rest: "data_loader wk0 = bs" "prepare_batch wk0 = pb"
    by (auto simp: Workflow_init_def dest!: construct_Inr)
  from h1 have e1: "e1 = engine wk0" by (simp add: attach_handlers_def)
  let ?e = "foldl (\<lambda>acc handler. Handler_attach handler acc) (engine wk0) l"
  have h2: "attach_handlers e1 (Some hs) = Inr ?e"
    using assms(2) e1 by (cases l) (auto simp: attach_handlers_def)
  have c: "snd (Workflow_init dev me a dl pb km am (Some hs)) =
             Inr \<lparr>engine = ?e, data_loader = bs, prepare_batch = pb\<rparr>"
    using ok s1 h2 by (simp add: Workflow_init_def construct_workflow_def)
  have filt: "map snd (filter (\<lambda>p. fst p = ev) (concat l)) =
                concat (map (\<lambda>handler. map snd (filter (\<lambda>p. fst p = ev) handler)) l)" for ev
    by (induction l) simp_all
  have "\<forall>ev. handlers_of ev ?e = handlers_of ev (engine wk0) @
              concat (map (\<lambda>handler. map snd (filter (\<lambda>p. fst p = ev) handler)) l)"
    by (simp add: handlers_of_def filt)
  moreover have "l = [] \<longrightarrow> \<lparr>engine = ?e, data_loader = bs, prepare_batch = pb\<rparr> = wk0"
    using rest by auto
  moreover have "\<exists>t. setup_metrics \<lparr>state = new_state (int_of me) t a, event_handlers = []\<rparr> km am =
                  Inr (engine wk0)"
    using s1 e1 by auto
  ultimately show ?thesis
    using c by simp
qed

theorem handlers_attached_in_order_witness:
  "\<exists>wk. snd (Workflow_init (TorchDevice ''cpu'') (PyInt 2) False (DataLoader [1, 2]) ()
            (Some (PyDict [(''dice'', example_metric 1)])) None
            (Some (PyList [example_handler EPOCH_COMPLETED ''first'',
                           example_handler EPOCH_COMPLETED ''second'']))) =
          Inr (wk :: (nat, nat, nat, unit) Workflow) \<and>
        handlers_of EPOCH_COMPLETED (engine wk) =
          [completed (example_metric 1) ''dice'', post_epoch_process,
           snd (hd (example_handler EPOCH_COMPLETED ''first'')),
           snd (hd (example_handler EPOCH_COMPLETED ''second''))]"
proof -
  have "snd (Workflow_init (TorchDevice ''cpu'') (PyInt 2) False (DataLoader [1, 2]) ()
            (Some (PyDict [(''dice'', example_metric 1)])) None None) =
      Inr (\<lparr>engine =
             \<lparr>state = (new_state 2 ''cpu'' False)\<lparr>key_metric_name := Some ''dice''\<rparr>,
              event_handlers =
                [(ITERATION_COMPLETED, iteration_completed (example_metric 1)),
                 (EPOCH_COMPLETED, completed (example_metric 1) ''dice''),
                 (EPOCH_COMPLETED, post_epoch_process)]\<rparr>,
            data_loader = [1, 2], prepare_batch = ()\<rparr> :: (nat, nat, nat, unit) Workflow)"
    by (simp add: Workflow_init_def construct_workflow_def setup_metrics_def merge_additional_def
          attach_handlers_def attach_metrics_def Metric_attach_def add_event_handler_def)
  from handlers_attached_in_order
    [OF this, of "PyList [example_handler EPOCH_COMPLETED ''first'',
                          example_handler EPOCH_COMPLETED ''second'']"
        "[example_handler EPOCH_COMPLETED ''first'', example_handler EPOCH_COMPLETED ''second'']"]
  show ?thesis
    by (auto simp: handlers_of_def example_handler_def)
qed

subsection \<open>Without a key metric\<close>

text \<open>
  Claim C10. When \<open>key_metric\<close> is \<open>None\<close>, \<open>additional_metrics\<close> is not looked at: the
  outcome is the one for \<open>additional_metrics = None\<close>, whatever object is passed; in the
  workflow built \<open>key_metric_name\<close> is \<open>None\<close> and the only registrations are those of the
  handlers; with valid device, epoch count and data loader nothing is raised.
\<close>

theorem additional_metrics_ignored_without_key_metric:
  fixes dl :: "'b py_loader" and pb :: 'p and am :: "('o, 'x) Metric py_container option"
    and hs :: "('b, 'o, 'x) Handler py_container option" and bs :: "'b list"
  shows
  "Workflow_init dev me a dl pb None am hs = Workflow_init dev me a dl pb None None hs \<and>
   (\<forall>wk. snd (Workflow_init dev me a dl pb None am hs) = Inr wk \<longrightarrow>
      key_metric_name (state (engine wk)) = None \<and>
      event_handlers (engine wk) = concat (handler_list hs)) \<and>
   (isinstance_int me \<longrightarrow>
      snd (Workflow_init (TorchDevice t) me a (DataLoader bs) pb None am None) =
        Inr \<lparr>engine = \<lparr>state = new_state (int_of me) t a, event_handlers = []\<rparr>,
             data_loader = bs, prepare_batch = pb\<rparr>)"
proof (intro conjI allI impI)
  show "Workflow_init dev me a dl pb None am hs = Workflow_init dev me a dl pb None None hs"
    by (simp add: Workflow_init_def construct_workflow_def split: py_device.splits py_loader.splits)
next
  fix wk :: "('b, 'o, 'x, 'p) Workflow"
  assume "snd (Workflow_init dev me a dl pb None am hs) = Inr wk"
  then obtain t where
    h: "attach_handlers \<lparr>state = new_state (int_of me) t a, event_handlers = []\<rparr> hs = Inr (engine wk)"
    by (auto simp: Workflow_init_def dest!: construct_Inr)
  from attach_handlers_cases [OF h]
  show "key_metric_name (state (engine wk)) = None"
    and "event_handlers (engine wk) = concat (handler_list hs)"
    by (simp_all add: new_state_def)
next
  assume "isinstance_int me"
  then show "snd (Workflow_init (TorchDevice t) me a (DataLoader bs) pb None am None) =
        Inr \<lparr>engine = \<lparr>state = new_state (int_of me) t a, event_handlers = []\<rparr>,
             data_loader = bs, prepare_batch = pb\<rparr>"
    by (simp add: Workflow_init_def construct_workflow_def attach_handlers_def)
qed

theorem additional_metrics_ignored_without_key_metric_witness:
  "Workflow_init (TorchDevice ''cpu'') (PyInt 2) False (DataLoader [1, 2]) () None
     (Some (PyList [example_metric 1])) None =
   ([], Inr (\<lparr>engine = \<lparr>state = new_state 2 ''cpu'' False, event_handlers = []\<rparr>,
              data_loader = [1, 2], prepare_batch = ()\<rparr> :: (nat, nat, nat, unit) Workflow))"
  using additional_metrics_ignored_without_key_metric
    [of "TorchDevice ''cpu''" "PyInt 2" False "DataLoader [1, 2 :: nat]" "()"
        "Some (PyList [example_metric 1])" "None :: (nat, nat, nat) Handler py_container option"
        "''cpu''" "[1, 2 :: nat]"]
  by (simp add: Workflow_init_def amp_notice_def construct_workflow_def attach_handlers_def)

subsection \<open>Starting a run\<close>

lemma constructed_state:
  fixes wk :: "('b, 'o, 'x, 'p) Workflow"
  assumes "construct_workflow dev me a dl pb km am hs = Inr wk"
  shows "\<exists>t k. dev = TorchDevice t \<and> dl = DataLoader (data_loader wk) \<and>
           state (engine wk) = (new_state (int_of me) t a)\<lparr>key_metric_name := k\<rparr>"
proof -
  from construct_Inr [OF assms] obtain t bs e1 where
    ok: "dev = TorchDevice t" "dl = DataLoader bs" "data_loader wk = bs"
    and s1: "setup_metrics \<lparr>state = new_state (int_of me) t a, event_handlers = []\<rparr> km am = Inr e1"
    and h1: "attach_handlers e1 hs = Inr (engine wk)"
    by blast
  have "\<exists>k. state e1 = (new_state (int_of me) t a)\<lparr>key_metric_name := k\<rparr>"
  proof (cases km)
    case None
    with s1 have "state e1 = (new_state (int_of me) t a)\<lparr>key_metric_name := None\<rparr>"
      by (auto simp: new_state_def)
    then show ?thesis ..
  next
    case (Some c)
    from setup_metrics_Inr [OF s1 [unfolded Some]] show ?thesis by auto
  qed
  with attach_handlers_cases [OF h1] ok show ?thesis by auto
qed

lemma fst_and_then:
  "fst (and_then r f) = fst r @ (case snd r of Inl failure \<Rightarrow> [] | Inr w \<Rightarrow> fst (f w))"
  by (simp add: and_then_def split: sum.splits)

lemma fst_on_failure: "\<exists>t. fst (on_failure e r) = fst r @ t"
  by (auto simp: on_failure_def split: sum.splits prod.splits)

lemma fire_no_handlers:
  "handlers_of ev e = [] \<Longrightarrow> fire e ev w = ([(ev, rs w)], Inr w)"
  by (simp add: fire_def)

lemma run_epoch_starts:
  "\<exists>t. fst (run_epoch e it data ep w) = (EPOCH_STARTED, (rs w)\<lparr>epoch := ep\<rparr>) # t"
  by (simp add: run_epoch_def fst_and_then fire_def)

lemma run_epochs_starts:
  "0 < n \<Longrightarrow> \<exists>t. fst (run_epochs n ep e it data w) = (EPOCH_STARTED, (rs w)\<lparr>epoch := ep\<rparr>) # t"
proof (cases n)
  case 0
  assume "0 < n" with 0 show ?thesis by simp
next
  case (Suc m)
  obtain t where "fst (run_epoch e it data ep w) = (EPOCH_STARTED, (rs w)\<lparr>epoch := ep\<rparr>) # t"
    using run_epoch_starts by blast
  then show ?thesis by (simp add: Suc fst_and_then)
qed

lemma Engine_run_trace:
  "\<exists>t. fst (Engine_run e it data declared w) = (STARTED, rs (resolve_epoch_length declared w)) # t"
proof -
  obtain t where "fst (Engine_run e it data declared w) =
     fst (and_then
          (and_then (fire e STARTED (resolve_epoch_length declared w))
             (\<lambda>w1. run_epochs (nat (max_epochs (rs w1))) 1 e it data w1))
          (fire e COMPLETED)) @ t"
    unfolding Engine_run_def using fst_on_failure by blast
  then show ?thesis by (simp add: fst_and_then fire_def)
qed

lemma Engine_run_trace_quiet:
  assumes "handlers_of STARTED e = []" and "1 \<le> max_epochs (rs w)"
  shows "\<exists>t. fst (Engine_run e it data declared w) =
           (STARTED, rs (resolve_epoch_length declared w)) #
           (EPOCH_STARTED, (rs (resolve_epoch_length declared w))\<lparr>epoch := 1\<rparr>) # t"
proof -
  let ?w0 = "resolve_epoch_length declared w"
  have m: "0 < nat (max_epochs (rs ?w0))"
    using assms(2) by (simp add: resolve_epoch_length_def)
  obtain t1 where t1: "fst (run_epochs (nat (max_epochs (rs ?w0))) 1 e it data ?w0) =
      (EPOCH_STARTED, (rs ?w0)\<lparr>epoch := 1\<rparr>) # t1"
    using run_epochs_starts [OF m] by blast
  obtain t where "fst (Engine_run e it data declared w) =
     fst (and_then
          (and_then (fire e STARTED ?w0)
             (\<lambda>w1. run_epochs (nat (max_epochs (rs w1))) 1 e it data w1))
          (fire e COMPLETED)) @ t"
    unfolding Engine_run_def using fst_on_failure by blast
  then show ?thesis
    using t1 by (simp add: fst_and_then fire_no_handlers [OF assms(1)])
qed

text \<open>
  A first run of two epochs over two batches, with an iteration operation that counts, leaves
  \<open>iteration\<close> at 4 and \<open>epoch_length\<close> at 2 in the engine's state.
\<close>

lemma first_run_leaves:
  "snd (Workflow_run example_iteration
          (\<lparr>engine = \<lparr>state = new_state 2 ''cpu'' False, event_handlers = []\<rparr>,
            data_loader = [1, 2], prepare_batch = ()\<rparr> :: (nat, nat, nat, unit) Workflow)
          0 []) =
   Inr \<lparr>rs = (new_state 2 ''cpu'' False)
               \<lparr>iteration := 4, epoch := 2, epoch_length := 2, output' := Some 2, batch := Some 2\<rparr>,
        ext = 0, stdout = []\<rparr>"
  by (simp add: Workflow_run_def Engine_run_def on_failure_def and_then_def fire_def
        handlers_of_def resolve_epoch_length_def new_state_def run_epoch_def process_batch_def
        example_iteration_def eval_nat_numeral)

text \<open>
  Claim C2. For every workflow, in whatever state earlier runs have left its engine, a run
  fires \<open>STARTED\<close> first, on a state whose \<open>iteration\<close> is 0; every other firing comes later.
  On that state \<open>epoch_length\<close> is the length of the data loader, a non-negative integer,
  whenever it was unset (\<open>-1\<close>) or already resolved to that length, and otherwise the value
  already stored; on a workflow as the constructor built it, it is unset, so it is the length
  of the data loader given to the constructor. When no callback is registered on \<open>STARTED\<close>
  and there is at least one epoch, the next firing is \<open>EPOCH_STARTED\<close> for epoch 1 on that
  same state.
\<close>

theorem run_resets_iteration_and_resolves_epoch_length:
  fixes wk :: "('b, 'o, 'x, 'p) Workflow"
  shows "\<exists>s rest. fst (Workflow_run it wk x out) = (STARTED, s) # rest \<and>
           iteration s = 0 \<and>
           epoch_length s =
             (if epoch_length (state (engine wk)) = - 1 then int (length (data_loader wk))
              else epoch_length (state (engine wk))) \<and>
           (epoch_length (state (engine wk)) = - 1 \<or>
            epoch_length (state (engine wk)) = int (length (data_loader wk)) \<longrightarrow>
              epoch_length s = int (length (data_loader wk)) \<and> 0 \<le> epoch_length s) \<and>
           (snd (Workflow_init dev me a dl pb km am hs) = Inr wk \<longrightarrow>
              dl = DataLoader (data_loader wk) \<and>
              epoch_length s = int (length (data_loader wk)) \<and> 0 \<le> epoch_length s) \<and>
           (handlers_of STARTED (engine wk) = [] \<and> 1 \<le> max_epochs (state (engine wk)) \<longrightarrow>
              (\<exists>rest'. rest = (EPOCH_STARTED, s\<lparr>epoch := 1\<rparr>) # rest'))"
proof -
  let ?w = "\<lparr>rs = (state (engine wk))\<lparr>iteration := 0\<rparr>, ext = x, stdout = out\<rparr>"
  let ?n = "int (length (data_loader wk))"
  let ?s = "rs (resolve_epoch_length ?n ?w)"
  have s: "iteration ?s = 0"
    "epoch_length ?s = (if epoch_length (state (engine wk)) = - 1 then ?n
                        else epoch_length (state (engine wk)))"
    "max_epochs (rs ?w) = max_epochs (state (engine wk))"
    by (simp_all add: resolve_epoch_length_def)
  obtain rest where r: "fst (Workflow_run it wk x out) = (STARTED, ?s) # rest"
    unfolding Workflow_run_def using Engine_run_trace by blast
  have built: "snd (Workflow_init dev me a dl pb km am hs) = Inr wk \<longrightarrow>
      dl = DataLoader (data_loader wk) \<and> epoch_length ?s = ?n \<and> 0 \<le> epoch_length ?s"
  proof
    assume "snd (Workflow_init dev me a dl pb km am hs) = Inr wk"
    then have "construct_workflow dev me a dl pb km am hs = Inr wk"
      by (simp add: Workflow_init_def)
    from constructed_state [OF this] obtain t k where
      dl: "dl = DataLoader (data_loader wk)"
      and st: "state (engine wk) = (new_state (int_of me) t a)\<lparr>key_metric_name := k\<rparr>"
      by blast
    have "epoch_length (state (engine wk)) = - 1"
      by (simp add: st new_state_def)
    with dl show "dl = DataLoader (data_loader wk) \<and> epoch_length ?s = ?n \<and> 0 \<le> epoch_length ?s"
      by (simp only: s(2)) simp
  qed
  have quiet: "handlers_of STARTED (engine wk) = [] \<and> 1 \<le> max_epochs (state (engine wk)) \<longrightarrow>
          (\<exists>rest'. rest = (EPOCH_STARTED, ?s\<lparr>epoch := 1\<rparr>) # rest')"
  proof
    assume q: "handlers_of STARTED (engine wk) = [] \<and> 1 \<le> max_epochs (state (engine wk))"
    then have "1 \<le> max_epochs (rs ?w)" using s(3) by simp
    from Engine_run_trace_quiet [OF conjunct1 [OF q] this, of it "data_loader wk" ?n] r
    show "\<exists>rest'. rest = (EPOCH_STARTED, ?s\<lparr>epoch := 1\<rparr>) # rest'"
      by (simp add: Workflow_run_def)
  qed
  have "epoch_length (state (engine wk)) = - 1 \<or> epoch_length (state (engine wk)) = ?n \<longrightarrow>
          epoch_length ?s = ?n \<and> 0 \<le> epoch_length ?s"
    by (auto simp: s(2))
  with r s(1,2) built quiet show ?thesis by blast
qed

theorem run_resets_iteration_and_resolves_epoch_length_witness:
  "\<exists>s rest.
      fst (Workflow_run example_iteration
             (\<lparr>engine =
                 \<lparr>state = (new_state 2 ''cpu'' False)
                            \<lparr>iteration := 4, epoch := 2, epoch_length := 2,
                             output' := Some 2, batch := Some 2\<rparr>,
                  event_handlers = []\<rparr>,
               data_loader = [1, 2], prepare_batch = ()\<rparr> :: (nat, nat, nat, unit) Workflow)
             0 []) =
        (STARTED, s) # (EPOCH_STARTED, s\<lparr>epoch := 1\<rparr>) # rest \<and>
      iteration s = 0 \<and> epoch_length s = 2"
  using run_resets_iteration_and_resolves_epoch_length
    [where it = example_iteration and x = 0 and out = "[]"
       and dev = "TorchDevice ''cpu''" and me = "PyInt 2" and a = False
       and dl = "DataLoader [1, 2 :: nat]" and km = None and am = None and hs = None
       and wk = "\<lparr>engine =
                 \<lparr>state = (new_state 2 ''cpu'' False)
                            \<lparr>iteration := 4, epoch := 2, epoch_length := 2,
                             output' := Some 2, batch := Some 2\<rparr>,
                  event_handlers = []\<rparr>,
               data_loader = [1, 2], prepare_batch = ()\<rparr> :: (nat, nat, nat, unit) Workflow"]
  by (auto simp: handlers_of_def new_state_def)

subsection \<open>The flag amp\<close>

lemma with_amp_simps [simp]:
  "rs (with_amp b w) = (rs w)\<lparr>amp := b\<rparr>"
  "ext (with_amp b w) = ext w"
  "stdout (with_amp b w) = stdout w"
  by (simp_all add: with_amp_def)

lemma amp_blind_post_epoch_process: "amp_blind post_epoch_process"
  by (auto simp: amp_blind_def post_epoch_process_def with_amp_def split: option.splits)

lemma amp_blind_completed: "amp_blind (completed m name)"
  by (auto simp: amp_blind_def completed_def with_amp_def split: sum.splits)

lemma amp_blind_iteration_completed: "amp_blind (iteration_completed m)"
  by (auto simp: amp_blind_def iteration_completed_def with_amp_def split: sum.splits)

lemma fire_callbacks_blind:
  "\<forall>cb \<in> set cbs. amp_blind cb \<Longrightarrow>
     fire_callbacks cbs (with_amp b w) =
       map_sum (map_prod id (with_amp b)) (with_amp b) (fire_callbacks cbs w)"
proof (induction cbs arbitrary: w)
  case Nil
  then show ?case by simp
next
  case (Cons cb cbs)
  then have cb: "cb (with_amp b w) = map_sum id (with_amp b) (cb w)"
    by (simp add: amp_blind_def)
  show ?case
  proof (cases "cb w")
    case (Inl err)
    with cb show ?thesis by simp
  next
    case (Inr w')
    with cb Cons show ?thesis by simp
  qed
qed

lemma fire_blind:
  assumes "all_blind e" and "event_handlers e' = event_handlers e"
  shows "fire e' ev (with_amp b w) = outcome_with_amp b (fire e ev w)"
proof -
  have "\<forall>cb \<in> set (handlers_of ev e). amp_blind cb"
    using assms(1) by (auto simp: all_blind_def handlers_of_def)
  moreover have "handlers_of ev e' = handlers_of ev e"
    using assms(2) by (simp add: handlers_of_def)
  ultimately show ?thesis
    by (simp add: fire_def outcome_with_amp_def fire_callbacks_blind)
qed

lemma and_then_blind:
  assumes "r' = outcome_with_amp b r"
    and "\<And>w. f' (with_amp b w) = outcome_with_amp b (f w)"
  shows "and_then r' f' = outcome_with_amp b (and_then r f)"
  using assms by (cases "snd r") (auto simp: and_then_def outcome_with_amp_def)

lemma process_batch_blind:
  "amp_blind_op it \<Longrightarrow>
     process_batch it x (with_amp b w) = outcome_with_amp b (process_batch it x w)"
  by (cases "it x w")
     (auto simp: amp_blind_op_def process_batch_def outcome_with_amp_def with_amp_def)

lemma with_amp_batch:
  "(with_amp b w)\<lparr>rs := (rs (with_amp b w))\<lparr>batch := v\<rparr>\<rparr> = with_amp b (w\<lparr>rs := (rs w)\<lparr>batch := v\<rparr>\<rparr>)"
  "(with_amp b w)\<lparr>rs := (rs (with_amp b w))\<lparr>epoch := n\<rparr>\<rparr> = with_amp b (w\<lparr>rs := (rs w)\<lparr>epoch := n\<rparr>\<rparr>)"
  by (simp_all add: with_amp_def)

lemma run_iterations_blind:
  assumes "all_blind e" and "event_handlers e' = event_handlers e" and "amp_blind_op it"
  shows "run_iterations bs e' it (with_amp b w) = outcome_with_amp b (run_iterations bs e it w)"
proof (induction bs arbitrary: w)
  case Nil
  then show ?case by (simp add: outcome_with_amp_def)
next
  case (Cons x bs)
  show ?case
    unfolding run_iterations.simps with_amp_batch
    by (intro and_then_blind fire_blind [OF assms(1,2)] process_batch_blind [OF assms(3)] Cons.IH)
qed

lemma run_epoch_blind:
  assumes "all_blind e" and "event_handlers e' = event_handlers e" and "amp_blind_op it"
  shows "run_epoch e' it data ep (with_amp b w) = outcome_with_amp b (run_epoch e it data ep w)"
proof -
  have "run_iterations (take (nat (epoch_length (rs (with_amp b w1)))) data) e' it (with_amp b w1) =
        outcome_with_amp b (run_iterations (take (nat (epoch_length (rs w1))) data) e it w1)" for w1
    using run_iterations_blind [OF assms] by simp
  then show ?thesis
    unfolding run_epoch_def with_amp_batch
    by (intro and_then_blind fire_blind [OF assms(1,2)])
qed

lemma run_epochs_blind:
  assumes "all_blind e" and "event_handlers e' = event_handlers e" and "amp_blind_op it"
  shows "run_epochs n ep e' it data (with_amp b w) = outcome_with_amp b (run_epochs n ep e it data w)"
proof (induction n arbitrary: ep w)
  case 0
  then show ?case by (simp add: outcome_with_amp_def)
next
  case (Suc n)
  show ?case
    unfolding run_epochs.simps
    by (intro and_then_blind run_epoch_blind [OF assms] Suc.IH)
qed

lemma on_failure_blind:
  assumes "all_blind e" and "event_handlers e' = event_handlers e"
  shows "on_failure e' (outcome_with_amp b r) = outcome_with_amp b (on_failure e r)"
proof (cases "snd r")
  case (Inr w)
  then show ?thesis by (simp add: on_failure_def outcome_with_amp_def)
next
  case (Inl failure)
  obtain err w where f: "failure = (err, w)" by (cases failure)
  have "fire e' EXCEPTION_RAISED (with_amp b w) = outcome_with_amp b (fire e EXCEPTION_RAISED w)"
    by (rule fire_blind [OF assms])
  then show ?thesis
    using Inl f
    by (cases "fire e EXCEPTION_RAISED w")
       (auto simp: on_failure_def outcome_with_amp_def split: sum.splits)
qed

lemma resolve_epoch_length_blind:
  "resolve_epoch_length n (with_amp b w) = with_amp b (resolve_epoch_length n w)"
  by (simp add: resolve_epoch_length_def with_amp_def)

lemma Engine_run_blind:
  assumes "all_blind e" and "event_handlers e' = event_handlers e" and "amp_blind_op it"
  shows "Engine_run e' it data n (with_amp b w) = outcome_with_amp b (Engine_run e it data n w)"
proof -
  have "run_epochs (nat (max_epochs (rs (with_amp b w1)))) 1 e' it data (with_amp b w1) =
        outcome_with_amp b (run_epochs (nat (max_epochs (rs w1))) 1 e it data w1)" for w1
    using run_epochs_blind [OF assms] by simp
  then have "and_then
          (and_then (fire e' STARTED (with_amp b (resolve_epoch_length n w)))
             (\<lambda>w1. run_epochs (nat (max_epochs (rs w1))) 1 e' it data w1))
          (fire e' COMPLETED) =
        outcome_with_amp b (and_then
          (and_then (fire e STARTED (resolve_epoch_length n w))
             (\<lambda>w1. run_epochs (nat (max_epochs (rs w1))) 1 e it data w1))
          (fire e COMPLETED))"
    by (intro and_then_blind fire_blind [OF assms(1,2)])
  then show ?thesis
    by (simp add: Engine_run_def resolve_epoch_length_blind on_failure_blind [OF assms(1,2)])
qed

lemma engine_with_amp_simps [simp]:
  "state (engine_with_amp b e) = (state e)\<lparr>amp := b\<rparr>"
  "event_handlers (engine_with_amp b e) = event_handlers e"
  by (simp_all add: engine_with_amp_def)

lemma add_event_handler_amp:
  "add_event_handler ev cb (engine_with_amp b e) = engine_with_amp b (add_event_handler ev cb e)"
  by (simp add: add_event_handler_def engine_with_amp_def)

lemma attach_metrics_amp:
  "attach_metrics (engine_with_amp b e) ms = engine_with_amp b (attach_metrics e ms)"
  unfolding attach_metrics_def
  by (induction ms arbitrary: e) (simp_all add: case_prod_beta Metric_attach_def add_event_handler_amp)

lemma Handler_attach_amp:
  "Handler_attach h (engine_with_amp b e) = engine_with_amp b (Handler_attach h e)"
  unfolding Handler_attach_def
  by (induction h arbitrary: e) (simp_all add: case_prod_beta add_event_handler_amp)

lemma attach_all_handlers_amp:
  "foldl (\<lambda>acc handler. Handler_attach handler acc) (engine_with_amp b e) l =
     engine_with_amp b (foldl (\<lambda>acc handler. Handler_attach handler acc) e l)"
  by (induction l arbitrary: e) (simp_all add: Handler_attach_amp)

lemma attach_handlers_amp:
  "attach_handlers (engine_with_amp b e) hs = map_sum id (engine_with_amp b) (attach_handlers e hs)"
  by (auto simp: attach_handlers_def attach_all_handlers_amp
        split: option.splits sum.splits py_container.splits)

lemma setup_metrics_amp:
  "setup_metrics (engine_with_amp b e) km am = map_sum id (engine_with_amp b) (setup_metrics e km am)"
proof -
  have "(engine_with_amp b e)\<lparr>state := (state (engine_with_amp b e))\<lparr>key_metric_name := k\<rparr>\<rparr> =
        engine_with_amp b (e\<lparr>state := (state e)\<lparr>key_metric_name := k\<rparr>\<rparr>)" for k
    by (simp add: engine_with_amp_def)
  then show ?thesis
    by (auto simp: setup_metrics_def attach_metrics_amp add_event_handler_amp
          split: option.splits sum.splits py_container.splits list.splits)
qed

lemma workflow_with_amp_record:
  "workflow_with_amp b \<lparr>engine = e, data_loader = bs, prepare_batch = pb\<rparr> =
     \<lparr>engine = engine_with_amp b e, data_loader = bs, prepare_batch = pb\<rparr>"
  by (simp add: workflow_with_amp_def engine_with_amp_def)

lemma construct_workflow_amp:
  "construct_workflow dev me b dl pb km am hs =
     map_sum id (workflow_with_amp b) (construct_workflow dev me a dl pb km am hs)"
proof -
  have e0: "\<lparr>state = new_state n t b, event_handlers = []\<rparr> =
        engine_with_amp b \<lparr>state = new_state n t a, event_handlers = []\<rparr>" for n t
    by (simp add: engine_with_amp_def new_state_def)
  show ?thesis
    unfolding construct_workflow_def e0 setup_metrics_amp
    by (simp add: attach_handlers_amp workflow_with_amp_record
          split: py_device.splits py_loader.splits sum.splits)
qed

lemma constructed_all_blind:
  fixes wk :: "('b, 'o, 'x, 'p) Workflow"
  assumes "construct_workflow dev me a dl pb km am hs = Inr wk"
    and "\<forall>h \<in> set (handler_list hs). \<forall>p \<in> set h. amp_blind (snd p)"
  shows "all_blind (engine wk)"
proof -
  from construct_Inr [OF assms(1)] obtain t e1 where
    s1: "setup_metrics \<lparr>state = new_state (int_of me) t a, event_handlers = []\<rparr> km am = Inr e1"
    and h1: "attach_handlers e1 hs = Inr (engine wk)"
    by blast
  have "\<forall>p \<in> set (event_handlers e1). amp_blind (snd p)"
  proof (cases km)
    case None
    with s1 show ?thesis by auto
  next
    case (Some c)
    from setup_metrics_Inr [OF s1 [unfolded Some]] obtain ms where
      "event_handlers e1 = metric_registrations ms @ [(EPOCH_COMPLETED, post_epoch_process)]"
      by auto
    moreover have "\<forall>p \<in> set (metric_registrations ms). amp_blind (snd p)"
      by (auto simp: metric_registrations_def amp_blind_completed amp_blind_iteration_completed)
    ultimately show ?thesis
      by (auto simp: amp_blind_post_epoch_process)
  qed
  with attach_handlers_cases [OF h1] assms(2) show ?thesis
    by (auto simp: all_blind_def)
qed

text \<open>
  Claim C9, as stated, says that two workflows constructed with the same arguments except
  \<open>amp\<close> behave identically at construction, apart from the flag stored in the state. Lines
  52 and 53 print a notice when \<open>amp\<close> is true: the two constructions write different output.
\<close>

theorem amp_differs_on_stdout:
  "fst (Workflow_init (TorchDevice ''cpu'') (PyInt 2) True (DataLoader [1, 2]) () None None None
          :: printed list \<times> (error + (nat, nat, nat, unit) Workflow)) = [AmpNotice] \<and>
   fst (Workflow_init (TorchDevice ''cpu'') (PyInt 2) False (DataLoader [1, 2]) () None None None
          :: printed list \<times> (error + (nat, nat, nat, unit) Workflow)) = []"
  by (simp add: Workflow_init_def amp_notice_def)

text \<open>
  Claim C9, amended. The value of \<open>amp\<close> shows in two places only: the flag stored in the
  state, and the notice printed at construction when it is true. The construction prints
  nothing else; with another value of \<open>amp\<close> it fails with the same error or builds the same
  workflow with the other flag stored; and when the handlers' callbacks and the iteration
  operation do not look at the stored flag, the runs of the two workflows fire the same events
  and end alike, up to the stored flag.
\<close>

theorem amp_only_stored_and_announced:
  fixes hs :: "('b, 'o, 'x) Handler py_container option" and pb :: 'p
  shows "fst (Workflow_init dev me a dl pb km am hs) = amp_notice a \<and>
     snd (Workflow_init dev me b dl pb km am hs) =
       map_sum id (workflow_with_amp b) (snd (Workflow_init dev me a dl pb km am hs)) \<and>
     (\<forall>wk. snd (Workflow_init dev me a dl pb km am hs) = Inr wk \<and>
            (\<forall>h \<in> set (handler_list hs). \<forall>p \<in> set h. amp_blind (snd p)) \<and> amp_blind_op it \<longrightarrow>
        Workflow_run it (workflow_with_amp b wk) x out =
          outcome_with_amp b (Workflow_run it wk x out))"
proof (intro conjI allI impI)
  show "fst (Workflow_init dev me a dl pb km am hs) = amp_notice a"
    by (simp add: Workflow_init_def)
next
  show "snd (Workflow_init dev me b dl pb km am hs) =
       map_sum id (workflow_with_amp b) (snd (Workflow_init dev me a dl pb km am hs))"
    by (simp add: Workflow_init_def construct_workflow_amp [where a = a and b = b])
next
  fix wk :: "('b, 'o, 'x, 'p) Workflow"
  assume h: "snd (Workflow_init dev me a dl pb km am hs) = Inr wk \<and>
            (\<forall>h \<in> set (handler_list hs). \<forall>p \<in> set h. amp_blind (snd p)) \<and> amp_blind_op it"
  then have c: "construct_workflow dev me a dl pb km am hs = Inr wk"
    by (simp add: Workflow_init_def)
  have blind: "all_blind (engine wk)"
    using constructed_all_blind [OF c] h by blast
  have eh: "event_handlers (engine (workflow_with_amp b wk)) = event_handlers (engine wk)"
    by (simp add: workflow_with_amp_def)
  have w: "\<lparr>rs = (state (engine (workflow_with_amp b wk)))\<lparr>iteration := 0\<rparr>, ext = x, stdout = out\<rparr> =
        with_amp b \<lparr>rs = (state (engine wk))\<lparr>iteration := 0\<rparr>, ext = x, stdout = out\<rparr>"
    by (simp add: workflow_with_amp_def with_amp_def)
  have dl: "data_loader (workflow_with_amp b wk) = data_loader wk"
    by (simp add: workflow_with_amp_def)
  show "Workflow_run it (workflow_with_amp b wk) x out =
          outcome_with_amp b (Workflow_run it wk x out)"
    unfolding Workflow_run_def w dl
    using h by (intro Engine_run_blind [OF blind eh]) simp
qed

theorem amp_only_stored_and_announced_witness:
  "Workflow_run (\<lambda>x w. Inr (x, w))
     (workflow_with_amp False
        (\<lparr>engine = \<lparr>state = new_state 2 ''cpu'' True, event_handlers = []\<rparr>,
          data_loader = [1, 2], prepare_batch = ()\<rparr> :: (nat, nat, nat, unit) Workflow))
     0 [AmpNotice] =
   outcome_with_amp False
     (Workflow_run (\<lambda>x w. Inr (x, w))
        \<lparr>engine = \<lparr>state = new_state 2 ''cpu'' True, event_handlers = []\<rparr>,
         data_loader = [1, 2], prepare_batch = ()\<rparr>
        0 [AmpNotice])"
proof -
  let ?wk = "\<lparr>engine = \<lparr>state = new_state 2 ''cpu'' True, event_handlers = []\<rparr>,
              data_loader = [1, 2], prepare_batch = ()\<rparr> :: (nat, nat, nat, unit) Workflow"
  let ?it = "(\<lambda>x w. Inr (x, w)) :: (nat, nat, nat) iteration_op"
  have base: "snd (Workflow_init (TorchDevice ''cpu'') (PyInt 2) True (DataLoader [1, 2]) ()
                 None None None) = Inr ?wk"
    by (simp add: Workflow_init_def construct_workflow_def attach_handlers_def)
  have blind: "amp_blind_op ?it"
    by (simp add: amp_blind_op_def)
  have "snd (Workflow_init (TorchDevice ''cpu'') (PyInt 2) True (DataLoader [1, 2]) ()
                 None None None) = Inr ?wk \<and>
        (\<forall>h \<in> set (handler_list (None :: (nat, nat, nat) Handler py_container option)).
            \<forall>p \<in> set h. amp_blind (snd p)) \<and>
        amp_blind_op ?it"
    using base blind by simp
  with amp_only_stored_and_announced
    [where dev = "TorchDevice ''cpu''" and me = "PyInt 2" and a = True and b = False
       and dl = "DataLoader [1, 2 :: nat]" and pb = "()" and km = None and am = None
       and hs = "None :: (nat, nat, nat) Handler py_container option"
       and it = ?it and x = 0 and out = "[AmpNotice]"]
  show ?thesis by blast
qed

end
